theory Spec2Isabelle
  imports Complex_Main
begin

section \<open>JavaScript values and objects used by Recorder.js\<close>

text \<open>
  The values that flow through the recorder: \<open>undefined\<close>, booleans, strings, function
  objects (named by the property that holds them), plain objects, Blobs (by an opaque
  number) and the object URLs that \<open>URL.createObjectURL\<close> makes of them.
\<close>

datatype jsval =
    JUndefined
  | JBool bool
  | JString string
  | JFunction string
  | JObject string
  | JBlob nat
  | JObjectURL nat

text \<open>ToBoolean, as \<open>&&\<close> and \<open>if\<close> apply it.\<close>

fun truthy :: "jsval \<Rightarrow> bool" where
  "truthy JUndefined = False"
| "truthy (JBool b) = b"
| "truthy (JString s) = (s \<noteq> [])"
| "truthy (JFunction f) = True"
| "truthy (JObject ob) = True"
| "truthy (JBlob b) = True"
| "truthy (JObjectURL u) = True"

text \<open>
  An object literal is its own properties in front of the properties it inherits from
  \<open>Object.prototype\<close>; \<open>obj[key]\<close> looks the key up in that order and yields
  \<open>undefined\<close> when neither has it.
\<close>

definition Object_prototype :: "(string \<times> jsval) list" where
  "Object_prototype =
    [(''constructor'', JFunction ''Object''),
     (''hasOwnProperty'', JFunction ''hasOwnProperty''),
     (''isPrototypeOf'', JFunction ''isPrototypeOf''),
     (''propertyIsEnumerable'', JFunction ''propertyIsEnumerable''),
     (''toLocaleString'', JFunction ''toLocaleString''),
     (''toString'', JFunction ''toString''),
     (''valueOf'', JFunction ''valueOf''),
     (''__defineGetter__'', JFunction ''__defineGetter__''),
     (''__defineSetter__'', JFunction ''__defineSetter__''),
     (''__lookupGetter__'', JFunction ''__lookupGetter__''),
     (''__lookupSetter__'', JFunction ''__lookupSetter__''),
     (''__proto__'', JObject ''Object.prototype'')]"

definition getProperty :: "(string \<times> jsval) list \<Rightarrow> string \<Rightarrow> jsval" where
  "getProperty obj key =
    (case map_of obj key of
       Some v \<Rightarrow> v
     | None \<Rightarrow> (case map_of Object_prototype key of Some v \<Rightarrow> v | None \<Rightarrow> JUndefined))"

section \<open>Constants of the module\<close>

datatype RecorderState = inactive | recording

text \<open>The enum's members are the strings that \<open>_setState\<close> passes to \<open>trigger\<close>.\<close>

fun RecorderState_value :: "RecorderState \<Rightarrow> string" where
  "RecorderState_value inactive = ''inactive''"
| "RecorderState_value recording = ''recording''"

definition errorMessageToCodeMap :: "(string \<times> jsval) list" where
  "errorMessageToCodeMap =
    [(''PermissionDeniedError'', JString ''permission-denied''),
     (''NotAllowedError'', JString ''permission-denied'')]"

definition config_bufferLength :: nat where
  "config_bufferLength = 4096"

definition config_numChannels :: nat where
  "config_numChannels = 1"

section \<open>The platform\<close>

text \<open>
  What the browser offers: whether \<open>window.AudioContext\<close> is defined, whether
  \<open>navigator.mediaDevices\<close> is there (\<open>None\<close> when it is undefined) and, if it is,
  whether it has \<open>getUserMedia\<close>; and the sample rate of the audio context.
\<close>

record Platform =
  AudioContext :: bool
  mediaDevices :: "bool option"
  sampleRate :: real

text \<open>An error object of the platform: its \<open>name\<close>, \<open>None\<close> when it has none.\<close>

record Error =
  name :: "string option"

definition TypeError :: Error where
  "TypeError = \<lparr>name = Some ''TypeError''\<rparr>"

section \<open>Error classifier and capability probe\<close>

text \<open>
  \<^verbatim>\<open>_errorToCode(e)\<close>:
  \<^verbatim>\<open>if (e.name && errorMessageToCodeMap[e.name]) return errorMessageToCodeMap[e.name];\<close>
  \<^verbatim>\<open>return 'unknown';\<close>
\<close>

definition errorToCode :: "Error \<Rightarrow> jsval" where
  "errorToCode e =
    (case name e of
       None \<Rightarrow> JString ''unknown''
     | Some n \<Rightarrow>
         (if truthy (JString n) \<and> truthy (getProperty errorMessageToCodeMap n)
          then getProperty errorMessageToCodeMap n
          else JString ''unknown''))"

text \<open>
  \<^verbatim>\<open>supported()\<close>: the value of
  \<^verbatim>\<open>window.AudioContext !== undefined && navigator.mediaDevices && navigator.mediaDevices.getUserMedia\<close>.
  \<open>a && b\<close> is \<open>a\<close> when \<open>a\<close> is falsy and \<open>b\<close> otherwise.
\<close>

definition supported :: "Platform \<Rightarrow> jsval" where
  "supported pf =
    (if \<not> AudioContext pf then JBool False
     else (case mediaDevices pf of
             None \<Rightarrow> JUndefined
           | Some hasGetUserMedia \<Rightarrow>
               (if hasGetUserMedia then JFunction ''getUserMedia'' else JUndefined)))"

section \<open>The recorder\<close>

type_synonym Float32Array = "real list"

datatype WorkerCommand =
    Cmd_init real nat
  | Cmd_record "Float32Array list"
  | Cmd_clear
  | Cmd_export_wav

text \<open>
  What the recorder does to the world, in the order it does it: the permission request,
  a message posted to the worker, a signal triggered on the recorder (type and data),
  a one-shot listener registered for a deferred result, and a deferred result resolved.
\<close>

datatype Effect =
    GetUserMedia
  | PostMessage WorkerCommand
  | Trigger string jsval
  | Once string nat
  | Resolve nat jsval

text \<open>
  The value a grant is rejected with: the object \<open>{code, error}\<close> that the catch handler
  of \<open>grabMic\<close> builds, or the error the promise executor itself threw.
\<close>

datatype Reason = Classified jsval Error | Thrown Error

datatype Settlement = Pending | Fulfilled | Rejected Reason

text \<open>
  The promise reactions (microtasks) of the module: the two handlers chained on
  \<open>getUserMedia\<close> in \<open>grabMic\<close> and the two chained on the grant in \<open>start\<close>. A rejection
  passes a \<open>then\<close> without rejection handler and reaches the \<open>catch\<close> one job later.
  A fulfilment that passes a \<open>catch\<close> does nothing and is left out.
\<close>

datatype Job =
    GumThen
  | GumThenSkip Error
  | GumCatch Error
  | StartThen
  | StartThenSkip Reason
  | StartCatch Reason

text \<open>
  The fields of a Recorder instance. \<open>userMedia\<close> is \<open>None\<close> while the field is
  undefined, and otherwise the promise (numbered at creation) with its settlement.
  \<open>requested\<close>: the platform has not answered the permission request yet.
  \<open>reactions\<close>: the \<open>start\<close> calls waiting for the pending grant.
  \<open>onceListeners\<close>: the deferred results whose one-shot \<open>wav-delivered\<close> listener is registered.
\<close>

record Recorder =
  state :: RecorderState
  audioContext :: bool
  userMedia :: "(nat \<times> Settlement) option"
  requested :: bool
  reactions :: nat
  jobs :: "Job list"
  onceListeners :: "nat list"
  promiseCount :: nat
  effects :: "Effect list"

definition postMessage :: "WorkerCommand \<Rightarrow> Recorder \<Rightarrow> Recorder" where
  "postMessage m s = s\<lparr>effects := effects s @ [PostMessage m]\<rparr>"

text \<open>
  The listener that \<open>getWavURL\<close> registers: \<open>resolve(URL.createObjectURL(e.data))\<close>.
  \<open>createObjectURL\<close> throws on anything but a Blob, and then nothing is resolved.
\<close>

fun isBlob :: "jsval \<Rightarrow> bool" where
  "isBlob (JBlob b) = True"
| "isBlob d = False"

fun wavListener :: "jsval \<Rightarrow> nat \<Rightarrow> Effect list" where
  "wavListener (JBlob b) p = [Resolve p (JObjectURL b)]"
| "wavListener d p = []"

text \<open>
  \<open>trigger\<close> of the event dispatcher the class extends: the signal goes out, and the
  one-shot listeners of its type run in the order of registration, each removed before
  its body runs. A body that throws ends the dispatch, so on data that is no Blob the
  first listener is removed and the later ones stay registered.
\<close>

definition trigger :: "string \<Rightarrow> jsval \<Rightarrow> Recorder \<Rightarrow> Recorder" where
  "trigger type d s =
    (if type = ''wav-delivered''
     then (if isBlob d
           then s\<lparr>onceListeners := [],
                  effects := effects s @ [Trigger type d] @
                             concat (map (wavListener d) (onceListeners s))\<rparr>
           else s\<lparr>onceListeners := drop 1 (onceListeners s),
                  effects := effects s @ [Trigger type d]\<rparr>)
     else s\<lparr>effects := effects s @ [Trigger type d]\<rparr>)"

definition setState :: "RecorderState \<Rightarrow> Recorder \<Rightarrow> Recorder" where
  "setState st s = trigger (RecorderState_value st) JUndefined (s\<lparr>state := st\<rparr>)"

definition stop :: "Recorder \<Rightarrow> Recorder" where
  "stop s = setState inactive s"

definition reset :: "Recorder \<Rightarrow> Recorder" where
  "reset s = postMessage Cmd_clear (setState inactive s)"

definition getWavURL :: "Recorder \<Rightarrow> nat \<times> Recorder" where
  "getWavURL s =
    (let s1 = stop s;
         p = promiseCount s1;
         s2 = s1\<lparr>onceListeners := onceListeners s1 @ [p],
                 promiseCount := Suc p,
                 effects := effects s1 @ [Once ''wav-delivered'' p]\<rparr>
     in (p, postMessage Cmd_export_wav s2))"

text \<open>\<open>init\<close> builds the audio context and the script processor node, if supported.\<close>

definition init :: "Platform \<Rightarrow> Recorder \<Rightarrow> Recorder" where
  "init pf s = (if \<not> truthy (supported pf) then s else s\<lparr>audioContext := True\<rparr>)"

definition new_Recorder :: "Platform \<Rightarrow> Recorder" where
  "new_Recorder pf =
    init pf \<lparr>state = inactive, audioContext = False, userMedia = None, requested = False,
             reactions = 0, jobs = [], onceListeners = [], promiseCount = 0, effects = []\<rparr>"

text \<open>
  The handler \<open>onaudioprocess\<close> that \<open>init\<close> installs. \<open>getChannelData(0)\<close> throws on a
  buffer without channels.
\<close>

definition onaudioprocess :: "Float32Array list \<Rightarrow> Recorder \<Rightarrow> Recorder" where
  "onaudioprocess inputBuffer s =
    (if state s = recording
     then (case inputBuffer of
             [] \<Rightarrow> s
           | channel0 # others \<Rightarrow> postMessage (Cmd_record [channel0]) s)
     else s)"

text \<open>\<open>worker.onmessage\<close>: \<open>self.trigger(e.data.command, e.data.blob)\<close>.\<close>

definition onmessage :: "string \<Rightarrow> jsval \<Rightarrow> Recorder \<Rightarrow> Recorder" where
  "onmessage command blob s = trigger command blob s"

text \<open>
  The executor of the promise in \<open>grabMic\<close>: the call of
  \<open>navigator.mediaDevices.getUserMedia\<close> throws a TypeError when there is no such function.
\<close>

definition executor :: "Platform \<Rightarrow> Recorder \<Rightarrow> Error + Recorder" where
  "executor pf s =
    (case mediaDevices pf of
       Some True \<Rightarrow> Inr (s\<lparr>requested := True, effects := effects s @ [GetUserMedia]\<rparr>)
     | _ \<Rightarrow> Inl TypeError)"

text \<open>
  \<open>grabMic\<close> returns the promise in \<open>this.userMedia\<close>, after creating it if the field is
  undefined. An executor that throws rejects the new promise.
\<close>

definition grabMic :: "Platform \<Rightarrow> Recorder \<Rightarrow> (nat \<times> Settlement) \<times> Recorder" where
  "grabMic pf s =
    (case userMedia s of
       Some promise \<Rightarrow> (promise, s)
     | None \<Rightarrow>
         (let p = promiseCount s;
              promise = (case executor pf s of
                           Inr s1 \<Rightarrow> ((p, Pending), s1)
                         | Inl e \<Rightarrow> ((p, Rejected (Thrown e)), s))
          in (fst promise, (snd promise)\<lparr>userMedia := Some (fst promise), promiseCount := Suc p\<rparr>)))"

text \<open>
  \<open>start\<close> chains its two handlers on the grant: on a pending grant they wait, on a
  settled one the reaction is queued at once.
\<close>

definition start :: "Platform \<Rightarrow> Recorder \<Rightarrow> Recorder" where
  "start pf s =
    (case grabMic pf s of
       ((p, Pending), s1) \<Rightarrow> s1\<lparr>reactions := Suc (reactions s1)\<rparr>
     | ((p, Fulfilled), s1) \<Rightarrow> s1\<lparr>jobs := jobs s1 @ [StartThen]\<rparr>
     | ((p, Rejected r), s1) \<Rightarrow> s1\<lparr>jobs := jobs s1 @ [StartThenSkip r]\<rparr>)"

text \<open>\<open>resolve()\<close> and \<open>reject(r)\<close> of the grant: they settle a pending promise only.\<close>

definition resolve :: "Recorder \<Rightarrow> Recorder" where
  "resolve s =
    (case userMedia s of
       Some (p, Pending) \<Rightarrow>
         s\<lparr>userMedia := Some (p, Fulfilled), reactions := 0,
           jobs := jobs s @ replicate (reactions s) StartThen\<rparr>
     | _ \<Rightarrow> s)"

definition reject :: "Reason \<Rightarrow> Recorder \<Rightarrow> Recorder" where
  "reject r s =
    (case userMedia s of
       Some (p, Pending) \<Rightarrow>
         s\<lparr>userMedia := Some (p, Rejected r), reactions := 0,
           jobs := jobs s @ replicate (reactions s) (StartThenSkip r)\<rparr>
     | _ \<Rightarrow> s)"

text \<open>
  One promise reaction. The success handler of \<open>getUserMedia\<close> throws a TypeError at
  \<open>this.audioContext.createMediaStreamSource\<close> when \<open>init\<close> built no audio context, and
  the catch handler gets it.
\<close>

fun runJob :: "Platform \<Rightarrow> Job \<Rightarrow> Recorder \<Rightarrow> Recorder" where
  "runJob pf GumThen s =
    (if audioContext s
     then resolve (postMessage (Cmd_init (sampleRate pf) config_numChannels) s)
     else s\<lparr>jobs := jobs s @ [GumCatch TypeError]\<rparr>)"
| "runJob pf (GumThenSkip e) s = s\<lparr>jobs := jobs s @ [GumCatch e]\<rparr>"
| "runJob pf (GumCatch e) s = reject (Classified (errorToCode e) e) s"
| "runJob pf StartThen s = setState recording s"
| "runJob pf (StartThenSkip r) s = s\<lparr>jobs := jobs s @ [StartCatch r]\<rparr>"
| "runJob pf (StartCatch r) s = trigger ''blocked'' JUndefined s"

section \<open>Executions\<close>

text \<open>
  What can happen to a recorder: a call of one of its methods, the platform answering
  the permission request, the next microtask, an audio frame, a message of the worker.
  The worker and the platform are outside the class and act through these events only.
  A browser runs all queued microtasks before it delivers the next frame, message or
  answer; here a microtask is an event like the others, so the executions considered
  include every execution of a browser.
\<close>

datatype GumOutcome = Granted | Denied Error

datatype Event =
    CallStart
  | CallStop
  | CallReset
  | CallGetWavURL
  | CallGrabMic
  | Settle GumOutcome
  | Microtask
  | AudioProcess "Float32Array list"
  | WorkerReply string jsval

fun step :: "Platform \<Rightarrow> Event \<Rightarrow> Recorder \<Rightarrow> Recorder" where
  "step pf CallStart s = start pf s"
| "step pf CallStop s = stop s"
| "step pf CallReset s = reset s"
| "step pf CallGetWavURL s = snd (getWavURL s)"
| "step pf CallGrabMic s = snd (grabMic pf s)"
| "step pf (Settle outcome) s =
    (if requested s
     then s\<lparr>requested := False,
            jobs := jobs s @ [case outcome of Granted \<Rightarrow> GumThen | Denied e \<Rightarrow> GumThenSkip e]\<rparr>
     else s)"
| "step pf Microtask s =
    (case jobs s of [] \<Rightarrow> s | j # js \<Rightarrow> runJob pf j (s\<lparr>jobs := js\<rparr>))"
| "step pf (AudioProcess inputBuffer) s =
    (if audioContext s then onaudioprocess inputBuffer s else s)"
| "step pf (WorkerReply command blob) s = onmessage command blob s"

fun exec :: "Platform \<Rightarrow> Event list \<Rightarrow> Recorder \<Rightarrow> Recorder" where
  "exec pf [] s = s"
| "exec pf (e # es) s = exec pf es (step pf e s)"

definition run :: "Platform \<Rightarrow> Event list \<Rightarrow> Recorder" where
  "run pf es = exec pf es (new_Recorder pf)"

section \<open>Observations on a recorder\<close>

text \<open>The number of permission requests issued so far.\<close>

definition gumCount :: "Recorder \<Rightarrow> nat" where
  "gumCount s = count_list (effects s) GetUserMedia"

text \<open>
  No request has been issued while \<open>userMedia\<close> is undefined, and never more than one.
\<close>

definition once_inv :: "Recorder \<Rightarrow> bool" where
  "once_inv s = ((userMedia s = None \<longrightarrow> gumCount s = 0) \<and> gumCount s \<le> 1)"

text \<open>The messages posted to the worker, in order.\<close>

fun posted :: "Effect list \<Rightarrow> WorkerCommand list" where
  "posted [] = []"
| "posted (PostMessage m # es) = m # posted es"
| "posted (e # es) = posted es"

text \<open>The settlement of the grant.\<close>

definition fulfilled :: "Recorder \<Rightarrow> bool" where
  "fulfilled s = (case userMedia s of Some (p, Fulfilled) \<Rightarrow> True | _ \<Rightarrow> False)"

definition rejected :: "Recorder \<Rightarrow> bool" where
  "rejected s = (case userMedia s of Some (p, Rejected r) \<Rightarrow> True | _ \<Rightarrow> False)"

text \<open>The \<open>init\<close> message of a platform, and the \<open>record\<close> messages.\<close>

definition initMsg :: "Platform \<Rightarrow> Effect" where
  "initMsg pf = PostMessage (Cmd_init (sampleRate pf) config_numChannels)"

fun isRecord :: "Effect \<Rightarrow> bool" where
  "isRecord (PostMessage (Cmd_record b)) = True"
| "isRecord e = False"

text \<open>No \<open>record\<close> message comes before the first \<open>init\<close> message.\<close>

fun initFirst :: "Platform \<Rightarrow> Effect list \<Rightarrow> bool" where
  "initFirst pf [] = True"
| "initFirst pf (e # es) =
    (if e = initMsg pf then True else if isRecord e then False else initFirst pf es)"

text \<open>
  What holds of every recorder that the events can produce: a fulfilled grant has an audio
  context and has posted \<open>init\<close>; only under a fulfilled grant is the state recording or the
  success reaction of a \<open>start\<close> queued; and \<open>init\<close> comes first.
\<close>

definition grant_inv :: "Platform \<Rightarrow> Recorder \<Rightarrow> bool" where
  "grant_inv pf s =
    ((fulfilled s \<longrightarrow> audioContext s \<and> initMsg pf \<in> set (effects s)) \<and>
     (state s = recording \<longrightarrow> fulfilled s) \<and>
     (StartThen \<in> set (jobs s) \<longrightarrow> fulfilled s) \<and>
     initFirst pf (effects s))"

text \<open>The buffers of the \<open>record\<close> messages posted, in order.\<close>

fun recordMsgs :: "Effect list \<Rightarrow> Float32Array list list" where
  "recordMsgs [] = []"
| "recordMsgs (PostMessage (Cmd_record b) # es) = b # recordMsgs es"
| "recordMsgs (e # es) = recordMsgs es"

text \<open>
  The channel-0 samples of the frames that are delivered, in the course of the events, at
  a moment when the state is recording.
\<close>

fun whileRecording :: "Platform \<Rightarrow> Event list \<Rightarrow> Recorder \<Rightarrow> Float32Array list" where
  "whileRecording pf [] s = []"
| "whileRecording pf (AudioProcess (c # cs) # es) s =
    (if state s = recording then [c] else []) @
    whileRecording pf es (step pf (AudioProcess (c # cs)) s)"
| "whileRecording pf (e # es) s = whileRecording pf es (step pf e s)"

text \<open>A rejected grant on a recorder that is inactive and has no success reaction queued.\<close>

definition rejected_inv :: "Recorder \<Rightarrow> bool" where
  "rejected_inv s = (rejected s \<and> state s = inactive \<and> StartThen \<notin> set (jobs s))"


section \<open>Sample inputs\<close>

text \<open>A browser with everything the recorder needs, and the error of a refused prompt.\<close>

definition chrome :: Platform where
  "chrome = \<lparr>AudioContext = True, mediaDevices = Some True, sampleRate = 44100\<rparr>"

definition NotAllowedError :: Error where
  "NotAllowedError = \<lparr>name = Some ''NotAllowedError''\<rparr>"

text \<open>A browser without \<open>navigator.mediaDevices\<close>.\<close>

definition no_mediaDevices :: Platform where
  "no_mediaDevices = \<lparr>AudioContext = True, mediaDevices = None, sampleRate = 44100\<rparr>"

text \<open>A browser without \<open>window.AudioContext\<close> that still has \<open>getUserMedia\<close>.\<close>

definition no_AudioContext :: Platform where
  "no_AudioContext = \<lparr>AudioContext = False, mediaDevices = Some True, sampleRate = 44100\<rparr>"

text \<open>A recorder whose first \<open>start()\<close> waits for the answer to the permission prompt.\<close>

definition waiting :: "Platform \<Rightarrow> Recorder" where
  "waiting pf = run pf [CallStart]"

text \<open>A recorder after \<open>start()\<close>, the user's consent and the two reactions that follow.\<close>

definition recording_chrome :: Recorder where
  "recording_chrome = run chrome [CallStart, Settle Granted, Microtask, Microtask]"

text \<open>A recorder that has started, got the grant and forwarded one frame.\<close>

definition one_frame :: "Event list" where
  "one_frame = [CallStart, Settle Granted, Microtask, Microtask, AudioProcess [[1, 0]]]"

text \<open>A recorder whose permission prompt was refused after \<open>start()\<close>.\<close>

definition refused :: "Event list" where
  "refused = [CallStart, Settle (Denied NotAllowedError), Microtask, Microtask, Microtask, Microtask]"


section \<open>Basic facts\<close>

lemmas op_defs = postMessage_def trigger_def setState_def stop_def reset_def getWavURL_def
  grabMic_def executor_def start_def resolve_def reject_def onaudioprocess_def onmessage_def

lemma exec_append: "exec pf (xs @ ys) s = exec pf ys (exec pf xs s)"
  by (induction xs arbitrary: s) simp_all

lemma run_snoc: "run pf (es @ [e]) = step pf e (run pf es)"
  by (simp add: run_def exec_append)

section \<open>The permission request is issued at most once\<close>

lemma count_wavListener [simp]:
  "count_list (concat (map (wavListener d) ps)) GetUserMedia = 0"
  by (induction ps) (cases d; simp)+

lemma userMedia_runJob:
  "userMedia s = Some (p, x) \<Longrightarrow> \<exists>y. userMedia (runJob pf j s) = Some (p, y)"
  by (cases j) (auto simp: op_defs split: Settlement.splits)

lemma userMedia_step:
  "userMedia s = Some (p, x) \<Longrightarrow> \<exists>y. userMedia (step pf e s) = Some (p, y)"
proof (cases e)
  case Microtask
  assume "userMedia s = Some (p, x)"
  then show ?thesis
    using Microtask userMedia_runJob [of "s\<lparr>jobs := tl (jobs s)\<rparr>" p x pf "hd (jobs s)"]
    by (cases "jobs s") auto
qed (auto simp: op_defs Let_def split: Settlement.splits list.splits)

lemma userMedia_None_step:
  "userMedia (step pf e s) = None \<Longrightarrow> userMedia s = None"
  using userMedia_step [of s _ _ pf e] by (cases "userMedia s") auto

lemma userMedia_exec:
  "userMedia s = Some (p, x) \<Longrightarrow> \<exists>y. userMedia (exec pf es s) = Some (p, y)"
proof (induction es arbitrary: s x)
  case Nil
  then show ?case by simp
next
  case (Cons e es)
  from userMedia_step [OF Cons.prems, of pf e]
  obtain y where "userMedia (step pf e s) = Some (p, y)" by blast
  from Cons.IH [OF this] show ?case by simp
qed

lemma gumCount_runJob: "gumCount (runJob pf j s) = gumCount s"
  by (cases j) (auto simp: op_defs gumCount_def split: Settlement.splits option.splits)

lemma gumCount_step_Some:
  "userMedia s \<noteq> None \<Longrightarrow> gumCount (step pf e s) = gumCount s"
proof (cases e)
  case Microtask
  then show ?thesis
    using gumCount_runJob [of pf "hd (jobs s)" "s\<lparr>jobs := tl (jobs s)\<rparr>"]
    by (cases "jobs s") (auto simp: gumCount_def)
qed (auto simp: op_defs Let_def gumCount_def split: Settlement.splits list.splits)

lemma gumCount_step_None:
  "userMedia s = None \<Longrightarrow> gumCount (step pf e s) \<le> Suc (gumCount s)"
proof (cases e)
  case Microtask
  then show ?thesis
    using gumCount_runJob [of pf "hd (jobs s)" "s\<lparr>jobs := tl (jobs s)\<rparr>"]
    by (cases "jobs s") (auto simp: gumCount_def)
qed (auto simp: op_defs Let_def gumCount_def
      split: Settlement.splits option.splits bool.splits list.splits)

lemma gumCount_step_stays_None:
  "userMedia (step pf e s) = None \<Longrightarrow> gumCount (step pf e s) = gumCount s"
proof (cases e)
  case Microtask
  then show ?thesis
    using gumCount_runJob [of pf "hd (jobs s)" "s\<lparr>jobs := tl (jobs s)\<rparr>"]
    by (cases "jobs s") (auto simp: gumCount_def)
qed (auto simp: op_defs Let_def gumCount_def
      split: Settlement.splits option.splits bool.splits sum.splits list.splits)

lemma gumCount_exec_Some:
  "userMedia s \<noteq> None \<Longrightarrow> gumCount (exec pf es s) = gumCount s"
proof (induction es arbitrary: s)
  case Nil
  then show ?case by simp
next
  case (Cons e es)
  have "userMedia (step pf e s) \<noteq> None"
  proof
    assume "userMedia (step pf e s) = None"
    then have "userMedia s = None" by (rule userMedia_None_step)
    with Cons.prems show False by simp
  qed
  from Cons.IH [OF this] gumCount_step_Some [OF Cons.prems, of pf e] show ?case by simp
qed

lemma once_inv_step: "once_inv s \<Longrightarrow> once_inv (step pf e s)"
  unfolding once_inv_def
  using gumCount_step_Some [of s pf e] gumCount_step_None [of s pf e]
    gumCount_step_stays_None [of pf e s] userMedia_None_step [of pf e s]
  by (cases "userMedia s") auto

lemma once_inv_new: "once_inv (new_Recorder pf)"
  by (simp add: once_inv_def new_Recorder_def init_def gumCount_def)

lemma once_inv_exec: "once_inv s \<Longrightarrow> once_inv (exec pf es s)"
  by (induction es arbitrary: s) (simp_all add: once_inv_step)

lemma grabMic_userMedia:
  "\<exists>x. userMedia (snd (grabMic pf s)) = Some (fst (fst (grabMic pf s)), x)"
  by (auto simp: grabMic_def executor_def Let_def split: option.splits bool.splits sum.splits)

lemma grabMic_memo: "userMedia s = Some (p, x) \<Longrightarrow> grabMic pf s = ((p, x), s)"
  by (simp add: grabMic_def)

text \<open>
  C1: on a recorder driven by any sequence of calls (\<open>start\<close>, \<open>grabMic\<close> and the others),
  platform answers, microtasks, frames and worker messages, \<open>getUserMedia\<close> has been called
  at most once. Once \<open>grabMic\<close> has returned a promise, a later call of \<open>grabMic\<close>, whatever
  happened in between, returns that same promise and changes nothing.
\<close>

theorem getUserMedia_at_most_once:
  "gumCount (run pf es) \<le> 1 \<and>
   fst (fst (grabMic pf (exec pf es' (snd (grabMic pf (run pf es)))))) =
     fst (fst (grabMic pf (run pf es))) \<and>
   snd (grabMic pf (exec pf es' (snd (grabMic pf (run pf es))))) =
     exec pf es' (snd (grabMic pf (run pf es)))"
proof -
  have "once_inv (run pf es)"
    unfolding run_def by (rule once_inv_exec [OF once_inv_new])
  then have a: "gumCount (run pf es) \<le> 1"
    by (simp add: once_inv_def)
  obtain x where
    "userMedia (snd (grabMic pf (run pf es))) = Some (fst (fst (grabMic pf (run pf es))), x)"
    using grabMic_userMedia by blast
  from userMedia_exec [OF this, of pf es'] obtain y where
    "userMedia (exec pf es' (snd (grabMic pf (run pf es)))) =
       Some (fst (fst (grabMic pf (run pf es))), y)"
    by blast
  from grabMic_memo [OF this, of pf] a show ?thesis by simp
qed

lemma posted_append: "posted (xs @ ys) = posted xs @ posted ys"
  by (induction xs rule: posted.induct) simp_all

lemma recording_chrome_eq:
  "recording_chrome = \<lparr>state = recording, audioContext = True, userMedia = Some (0, Fulfilled),
     requested = False, reactions = 0, jobs = [], onceListeners = [], promiseCount = 1,
     effects = [GetUserMedia, PostMessage (Cmd_init 44100 1), Trigger ''recording'' JUndefined]\<rparr>"
  by (simp add: recording_chrome_def run_def new_Recorder_def init_def supported_def chrome_def
      start_def grabMic_def executor_def Let_def resolve_def postMessage_def setState_def trigger_def
      config_numChannels_def)

section \<open>The error classifier\<close>

text \<open>The table does what it is meant to on its own keys, on a name it lacks and on no name.\<close>

lemma errorToCode_own_table:
  "errorToCode \<lparr>name = Some ''NotAllowedError''\<rparr> = JString ''permission-denied'' \<and>
   errorToCode \<lparr>name = Some ''PermissionDeniedError''\<rparr> = JString ''permission-denied'' \<and>
   errorToCode \<lparr>name = Some ''SomethingElseError''\<rparr> = JString ''unknown'' \<and>
   errorToCode \<lparr>name = None\<rparr> = JString ''unknown''"
  by (simp add: errorToCode_def getProperty_def errorMessageToCodeMap_def Object_prototype_def)

text \<open>
  On every name that \<open>Object.prototype\<close> does not define, the classifier is the exact-match
  table with \<open>unknown\<close> as default.
\<close>

lemma errorToCode_not_inherited:
  "map_of Object_prototype n = None \<Longrightarrow>
   errorToCode \<lparr>name = Some n\<rparr> =
     (if n = ''NotAllowedError'' \<or> n = ''PermissionDeniedError''
      then JString ''permission-denied'' else JString ''unknown'')"
  by (simp add: errorToCode_def getProperty_def errorMessageToCodeMap_def)

text \<open>
  C4: the classifier is claimed to send every name other than NotAllowedError and
  PermissionDeniedError to \<open>unknown\<close>. The table is an object literal read with
  \<open>errorMessageToCodeMap[e.name]\<close>, so a name that \<open>Object.prototype\<close> defines finds the
  inherited member, which is truthy, and the classifier returns it: on an error named
  \<open>constructor\<close> the result is the function \<open>Object\<close>, not the string \<open>unknown\<close>.
\<close>

theorem errorToCode_inherited_name:
  "errorToCode \<lparr>name = Some ''constructor''\<rparr> = JFunction ''Object'' \<and>
   errorToCode \<lparr>name = Some ''constructor''\<rparr> \<noteq> JString ''unknown''"
  by (simp add: errorToCode_def getProperty_def errorMessageToCodeMap_def Object_prototype_def)

section \<open>The capability probe\<close>

text \<open>The probe is truthy exactly when both platform features are there.\<close>

lemma supported_truthy:
  "truthy (supported pf) = (AudioContext pf \<and> mediaDevices pf = Some True)"
  by (auto simp: supported_def split: option.splits)

text \<open>
  C8: \<open>supported()\<close> is claimed (and documented, \<open>@return {boolean}\<close>) to return a boolean.
  It returns the last operand that \<open>&&\<close> evaluated: on a browser with both features the
  function \<open>getUserMedia\<close> rather than \<open>true\<close>, and without \<open>navigator.mediaDevices\<close> the
  value \<open>undefined\<close> rather than \<open>false\<close>.
\<close>

theorem supported_not_boolean:
  "supported chrome = JFunction ''getUserMedia'' \<and>
   supported chrome \<noteq> JBool True \<and>
   supported (chrome\<lparr>mediaDevices := None\<rparr>) = JUndefined \<and>
   supported (chrome\<lparr>mediaDevices := None\<rparr>) \<noteq> JBool False"
  by (simp add: supported_def chrome_def)

section \<open>Stopping\<close>

text \<open>
  C7: \<open>stop()\<close> is defined on every recorder; it sets the state to inactive and appends
  exactly one \<open>inactive\<close> signal, leaving every other field as it was. On an inactive
  recorder the signal is its only effect, a second \<open>stop()\<close> adds one more signal and
  nothing else, and the messages posted to the worker are the same before and after.
\<close>

theorem stop_idempotent_total:
  "stop s = s\<lparr>state := inactive, effects := effects s @ [Trigger ''inactive'' JUndefined]\<rparr> \<and>
   (state s = inactive \<longrightarrow>
      stop s = s\<lparr>effects := effects s @ [Trigger ''inactive'' JUndefined]\<rparr>) \<and>
   stop (stop s) = (stop s)\<lparr>effects := effects (stop s) @ [Trigger ''inactive'' JUndefined]\<rparr> \<and>
   posted (effects (stop s)) = posted (effects s) \<and>
   step pf CallStop s = stop s"
  by (auto simp: stop_def setState_def trigger_def posted_append)

theorem stop_idempotent_total_witness:
  "state (new_Recorder chrome) = inactive \<and>
   stop (new_Recorder chrome) =
     (new_Recorder chrome)\<lparr>effects :=
        effects (new_Recorder chrome) @ [Trigger ''inactive'' JUndefined]\<rparr>"
  using stop_idempotent_total [of "new_Recorder chrome" chrome]
  by (simp add: new_Recorder_def init_def)

section \<open>Starting while recording\<close>

lemma start_fulfilled:
  "userMedia s = Some (p, Fulfilled) \<Longrightarrow> start pf s = s\<lparr>jobs := jobs s @ [StartThen]\<rparr>"
  by (simp add: start_def grabMic_def)

lemma start_recording_once:
  assumes "state s = recording" "userMedia s = Some (p, Fulfilled)" "jobs s = []"
  shows "exec pf [CallStart, Microtask] s =
           s\<lparr>effects := effects s @ [Trigger ''recording'' JUndefined]\<rparr>"
  using assms by (simp add: start_fulfilled setState_def trigger_def)

text \<open>
  C10: on a recorder that is recording, with the grant fulfilled and no reaction queued,
  \<open>n\<close> calls of \<open>start()\<close>, each followed by its reaction, leave the state at recording and
  append exactly \<open>n\<close> \<open>recording\<close> signals; nothing else changes.
\<close>

theorem start_while_recording:
  assumes "state s = recording" "userMedia s = Some (p, Fulfilled)" "jobs s = []"
  shows "exec pf (concat (replicate n [CallStart, Microtask])) s =
           s\<lparr>effects := effects s @ replicate n (Trigger ''recording'' JUndefined)\<rparr>"
  using assms
proof (induction n arbitrary: s)
  case 0
  then show ?case by simp
next
  case (Suc n)
  let ?s1 = "s\<lparr>effects := effects s @ [Trigger ''recording'' JUndefined]\<rparr>"
  have one: "exec pf [CallStart, Microtask] s = ?s1"
    using Suc.prems by (rule start_recording_once)
  have "exec pf (concat (replicate (Suc n) [CallStart, Microtask])) s =
        exec pf (concat (replicate n [CallStart, Microtask])) (exec pf [CallStart, Microtask] s)"
    by simp
  also have "\<dots> = exec pf (concat (replicate n [CallStart, Microtask])) ?s1"
    by (simp only: one)
  also have "\<dots> = ?s1\<lparr>effects := effects ?s1 @ replicate n (Trigger ''recording'' JUndefined)\<rparr>"
    using Suc.prems by (intro Suc.IH) simp_all
  finally show ?case by (simp add: replicate_append_same)
qed

theorem start_while_recording_witness:
  "state recording_chrome = recording \<and> userMedia recording_chrome = Some (0, Fulfilled) \<and>
   jobs recording_chrome = [] \<and>
   exec chrome [CallStart, Microtask, CallStart, Microtask] recording_chrome =
     recording_chrome\<lparr>effects := effects recording_chrome @
        [Trigger ''recording'' JUndefined, Trigger ''recording'' JUndefined]\<rparr>"
proof -
  have a: "state recording_chrome = recording" "userMedia recording_chrome = Some (0, Fulfilled)"
    "jobs recording_chrome = []"
    by (simp_all add: recording_chrome_eq)
  from start_while_recording [OF a, of chrome 2] a show ?thesis
    by (simp add: numeral_2_eq_2)
qed

section \<open>The grant invariant\<close>

lemma initFirst_append:
  "initFirst pf (xs @ ys) = (initFirst pf xs \<and> (initMsg pf \<in> set xs \<or> initFirst pf ys))"
  by (induction xs) auto

lemma initFirst_wavListener [simp]: "initFirst pf (concat (map (wavListener d) ps))"
  by (induction ps) (cases d; simp add: initMsg_def)+

lemma initFirst_split:
  assumes "initFirst pf es" and "es = ys @ PostMessage (Cmd_record b) # zs"
  shows "initMsg pf \<in> set ys"
proof -
  have "\<not> initFirst pf (PostMessage (Cmd_record b) # zs)"
    by (simp add: initMsg_def)
  with assms show ?thesis by (simp add: initFirst_append)
qed

lemma grant_inv_new: "grant_inv pf (new_Recorder pf)"
  by (simp add: grant_inv_def new_Recorder_def init_def fulfilled_def)

lemma grant_inv_runJob:
  "grant_inv pf (s\<lparr>jobs := j # js\<rparr>) \<Longrightarrow> grant_inv pf (runJob pf j (s\<lparr>jobs := js\<rparr>))"
  by (cases j)
    (auto simp: grant_inv_def fulfilled_def op_defs initFirst_append initMsg_def
          split: option.splits Settlement.splits)

lemma grant_inv_step: "grant_inv pf s \<Longrightarrow> grant_inv pf (step pf e s)"
proof (cases e)
  case Microtask
  assume inv: "grant_inv pf s"
  show ?thesis
  proof (cases "jobs s")
    case Nil
    with inv Microtask show ?thesis by simp
  next
    case (Cons j js)
    then have "s\<lparr>jobs := j # js\<rparr> = s" by simp
    with inv grant_inv_runJob [of pf j js s] Microtask Cons show ?thesis by simp
  qed
qed (auto simp: grant_inv_def fulfilled_def op_defs Let_def initFirst_append initMsg_def
      split: option.splits Settlement.splits list.splits bool.splits GumOutcome.splits)

lemma grant_inv_exec: "grant_inv pf s \<Longrightarrow> grant_inv pf (exec pf es s)"
  by (induction es arbitrary: s) (simp_all add: grant_inv_step)

lemma grant_inv_run: "grant_inv pf (run pf es)"
  unfolding run_def by (rule grant_inv_exec [OF grant_inv_new])

section \<open>The order of init and record\<close>

text \<open>
  C6: in every execution the \<open>init\<close> message, carrying the platform's sample rate and
  \<open>numChannels\<close>, is among the effects that precede any \<open>record\<close> message. The grant is
  fulfilled only after \<open>init\<close> was posted, and the state is recording only under a
  fulfilled grant.
\<close>

theorem init_before_record:
  "(fulfilled (run pf es) \<longrightarrow>
      PostMessage (Cmd_init (sampleRate pf) config_numChannels) \<in> set (effects (run pf es))) \<and>
   (state (run pf es) = recording \<longrightarrow> fulfilled (run pf es)) \<and>
   (\<forall>ys b zs. effects (run pf es) = ys @ PostMessage (Cmd_record b) # zs \<longrightarrow>
      PostMessage (Cmd_init (sampleRate pf) config_numChannels) \<in> set ys)"
  using grant_inv_run [of pf es] initFirst_split [of pf "effects (run pf es)"]
  by (auto simp: grant_inv_def initMsg_def)

lemma run_one_frame:
  "run chrome one_frame = \<lparr>state = recording, audioContext = True, userMedia = Some (0, Fulfilled),
     requested = False, reactions = 0, jobs = [], onceListeners = [], promiseCount = 1,
     effects = [GetUserMedia, PostMessage (Cmd_init 44100 1), Trigger ''recording'' JUndefined,
                PostMessage (Cmd_record [[1, 0]])]\<rparr>"
  by (simp add: one_frame_def run_def new_Recorder_def init_def supported_def chrome_def
      start_def grabMic_def executor_def Let_def resolve_def postMessage_def setState_def trigger_def
      config_numChannels_def onaudioprocess_def)

theorem init_before_record_witness:
  "fulfilled (run chrome one_frame) \<and> state (run chrome one_frame) = recording \<and>
   effects (run chrome one_frame) =
     [GetUserMedia, PostMessage (Cmd_init 44100 1), Trigger ''recording'' JUndefined] @
     PostMessage (Cmd_record [[1, 0]]) # [] \<and>
   PostMessage (Cmd_init (sampleRate chrome) config_numChannels) \<in>
     set [GetUserMedia, PostMessage (Cmd_init 44100 1), Trigger ''recording'' JUndefined]"
proof -
  have a: "fulfilled (run chrome one_frame)" "state (run chrome one_frame) = recording"
    "effects (run chrome one_frame) =
       [GetUserMedia, PostMessage (Cmd_init 44100 1), Trigger ''recording'' JUndefined,
        PostMessage (Cmd_record [[1, 0]])]"
    by (simp_all add: run_one_frame fulfilled_def)
  have b: "sampleRate chrome = 44100"
    by (simp add: chrome_def)
  from init_before_record [of chrome one_frame] a b show ?thesis
    by (simp add: config_numChannels_def)
qed

section \<open>The frame forwarder\<close>

lemma recordMsgs_append: "recordMsgs (xs @ ys) = recordMsgs xs @ recordMsgs ys"
  by (induction xs rule: recordMsgs.induct) simp_all

lemma recordMsgs_wavListener [simp]: "recordMsgs (concat (map (wavListener d) ps)) = []"
  by (induction ps) (cases d; simp)+

lemma recordMsgs_runJob: "recordMsgs (effects (runJob pf j s)) = recordMsgs (effects s)"
  by (cases j) (auto simp: op_defs recordMsgs_append split: option.splits Settlement.splits)

lemma recordMsgs_Microtask:
  "recordMsgs (effects (step pf Microtask s)) = recordMsgs (effects s)"
  by (cases "jobs s") (simp_all add: recordMsgs_runJob)

lemma recording_audioContext: "grant_inv pf s \<Longrightarrow> state s = recording \<Longrightarrow> audioContext s"
  by (simp add: grant_inv_def)

lemma onaudioprocess_gate:
  "grant_inv pf s \<Longrightarrow>
   step pf (AudioProcess (c # cs)) s =
     (if state s = recording then s\<lparr>effects := effects s @ [PostMessage (Cmd_record [c])]\<rparr>
      else s)"
  using recording_audioContext [of pf s]
  by (auto simp: onaudioprocess_def postMessage_def)

lemma whileRecording_Cons:
  "whileRecording pf (e # es) s = whileRecording pf [e] s @ whileRecording pf es (step pf e s)"
proof (cases e)
  case (AudioProcess inputBuffer)
  then show ?thesis by (cases inputBuffer) simp_all
qed simp_all

lemma recordMsgs_step:
  assumes "grant_inv pf s"
  shows "recordMsgs (effects (step pf e s)) =
           recordMsgs (effects s) @ map (\<lambda>c. [c]) (whileRecording pf [e] s)"
proof (cases e)
  case Microtask
  with recordMsgs_Microtask [of pf s] show ?thesis by (simp del: step.simps)
next
  case (AudioProcess inputBuffer)
  show ?thesis
  proof (cases inputBuffer)
    case Nil
    with AudioProcess show ?thesis by (simp add: onaudioprocess_def)
  next
    case (Cons c cs)
    with AudioProcess onaudioprocess_gate [OF assms, of c cs] show ?thesis
      by (simp add: recordMsgs_append)
  qed
qed (auto simp: op_defs Let_def recordMsgs_append
      split: option.splits Settlement.splits bool.splits)

lemma recordMsgs_exec:
  "grant_inv pf s \<Longrightarrow>
   recordMsgs (effects (exec pf es s)) =
     recordMsgs (effects s) @ map (\<lambda>c. [c]) (whileRecording pf es s)"
proof (induction es arbitrary: s)
  case Nil
  then show ?case by simp
next
  case (Cons e es)
  from Cons.prems have "grant_inv pf (step pf e s)"
    by (rule grant_inv_step)
  from Cons.IH [OF this] recordMsgs_step [OF Cons.prems, of e]
  show ?case by (simp add: whileRecording_Cons [of pf e es s])
qed

text \<open>
  C2: a frame delivered to a recorder that any execution has produced appends one
  \<open>record\<close> message with the frame's channel-0 samples if the state is recording at that
  moment, and otherwise leaves the recorder exactly as it was. Over a whole execution the
  \<open>record\<close> messages posted are, in order, the frames delivered while recording.
\<close>

theorem frames_forwarded_iff_recording:
  "step pf (AudioProcess (c # cs)) (run pf es) =
     (if state (run pf es) = recording
      then (run pf es)\<lparr>effects := effects (run pf es) @ [PostMessage (Cmd_record [c])]\<rparr>
      else run pf es) \<and>
   recordMsgs (effects (run pf es)) = map (\<lambda>c. [c]) (whileRecording pf es (new_Recorder pf))"
proof -
  have "recordMsgs (effects (new_Recorder pf)) = []"
    by (simp add: new_Recorder_def init_def)
  with recordMsgs_exec [of pf "new_Recorder pf" es, OF grant_inv_new]
    onaudioprocess_gate [of pf "run pf es" c cs, OF grant_inv_run]
  show ?thesis by (simp add: run_def)
qed

section \<open>A failed grant\<close>

lemma run_refused:
  "run chrome refused = \<lparr>state = inactive, audioContext = True,
     userMedia = Some (0, Rejected (Classified (JString ''permission-denied'') NotAllowedError)),
     requested = False, reactions = 0, jobs = [], onceListeners = [], promiseCount = 1,
     effects = [GetUserMedia, Trigger ''blocked'' JUndefined]\<rparr>"
  by (simp add: refused_def run_def new_Recorder_def init_def supported_def chrome_def
      start_def grabMic_def executor_def Let_def reject_def trigger_def
      errorToCode_def getProperty_def errorMessageToCodeMap_def NotAllowedError_def)

lemma start_rejected:
  "userMedia s = Some (p, Rejected r) \<Longrightarrow> start pf s = s\<lparr>jobs := jobs s @ [StartThenSkip r]\<rparr>"
  by (simp add: start_def grabMic_def)

lemma start_rejected_blocked:
  assumes "userMedia s = Some (p, Rejected r)" "jobs s = []"
  shows "exec pf [CallStart, Microtask, Microtask] s =
           s\<lparr>effects := effects s @ [Trigger ''blocked'' JUndefined]\<rparr>"
  using assms by (simp add: start_rejected trigger_def)

lemma start_rejected_blocked_n:
  assumes "userMedia s = Some (p, Rejected r)" "jobs s = []"
  shows "exec pf (concat (replicate n [CallStart, Microtask, Microtask])) s =
           s\<lparr>effects := effects s @ replicate n (Trigger ''blocked'' JUndefined)\<rparr>"
  using assms
proof (induction n arbitrary: s)
  case 0
  then show ?case by simp
next
  case (Suc n)
  let ?s1 = "s\<lparr>effects := effects s @ [Trigger ''blocked'' JUndefined]\<rparr>"
  have one: "exec pf [CallStart, Microtask, Microtask] s = ?s1"
    using Suc.prems by (rule start_rejected_blocked)
  have "exec pf (concat (replicate (Suc n) [CallStart, Microtask, Microtask])) s =
        exec pf (concat (replicate n [CallStart, Microtask, Microtask]))
          (exec pf [CallStart, Microtask, Microtask] s)"
    by simp
  also have "\<dots> = exec pf (concat (replicate n [CallStart, Microtask, Microtask])) ?s1"
    by (simp only: one)
  also have "\<dots> = ?s1\<lparr>effects := effects ?s1 @ replicate n (Trigger ''blocked'' JUndefined)\<rparr>"
    using Suc.prems by (intro Suc.IH) simp_all
  finally show ?case by (simp add: replicate_append_same)
qed

lemma rejected_inv_runJob:
  "rejected_inv (s\<lparr>jobs := j # js\<rparr>) \<Longrightarrow>
   rejected_inv (runJob pf j (s\<lparr>jobs := js\<rparr>)) \<and>
   userMedia (runJob pf j (s\<lparr>jobs := js\<rparr>)) = userMedia s"
  by (cases j)
    (auto simp: rejected_inv_def rejected_def op_defs split: option.splits Settlement.splits)

lemma rejected_inv_step:
  "rejected_inv s \<Longrightarrow> rejected_inv (step pf e s) \<and> userMedia (step pf e s) = userMedia s"
proof (cases e)
  case Microtask
  assume inv: "rejected_inv s"
  show ?thesis
  proof (cases "jobs s")
    case Nil
    with inv Microtask show ?thesis by simp
  next
    case (Cons j js)
    then have "s\<lparr>jobs := j # js\<rparr> = s" by simp
    with inv rejected_inv_runJob [of j js s pf] Microtask Cons show ?thesis by simp
  qed
qed (auto simp: rejected_inv_def rejected_def op_defs Let_def
      split: option.splits Settlement.splits list.splits bool.splits GumOutcome.splits)

lemma rejected_inv_exec:
  "rejected_inv s \<Longrightarrow> rejected_inv (exec pf es s) \<and> userMedia (exec pf es s) = userMedia s"
proof (induction es arbitrary: s)
  case Nil
  then show ?case by simp
next
  case (Cons e es)
  from rejected_inv_step [OF Cons.prems, of pf e] Cons.IH [of "step pf e s"]
  show ?case by simp
qed

lemma rejectedE: "rejected s \<Longrightarrow> \<exists>p r. userMedia s = Some (p, Rejected r)"
proof (cases "userMedia s")
  case None
  moreover assume "rejected s"
  ultimately show ?thesis by (simp add: rejected_def)
next
  case (Some a)
  assume r: "rejected s"
  obtain p x where a: "a = (p, x)" by (cases a)
  with Some r show ?thesis by (cases x) (simp_all add: rejected_def)
qed

lemma rejected_inv_reachable: "grant_inv pf s \<Longrightarrow> rejected s \<Longrightarrow> rejected_inv s"
  by (cases "state s")
    (auto simp: grant_inv_def rejected_inv_def rejected_def fulfilled_def
          split: option.splits Settlement.splits)

text \<open>
  C9: once the grant of a recorder is rejected, whatever happens afterwards the state
  stays inactive, the grant stays the same rejected promise and no further permission
  request is issued; and \<open>n\<close> later calls of \<open>start()\<close>, each followed by its two reactions,
  append exactly \<open>n\<close> \<open>blocked\<close> signals and change nothing else.
\<close>

theorem rejected_grant_is_cached:
  assumes "rejected (run pf es)"
  shows "state (run pf (es @ es')) = inactive \<and>
         userMedia (run pf (es @ es')) = userMedia (run pf es) \<and>
         gumCount (run pf (es @ es')) = gumCount (run pf es) \<and>
         (jobs (run pf (es @ es')) = [] \<longrightarrow>
            exec pf (concat (replicate n [CallStart, Microtask, Microtask])) (run pf (es @ es')) =
              (run pf (es @ es'))\<lparr>effects := effects (run pf (es @ es')) @
                 replicate n (Trigger ''blocked'' JUndefined)\<rparr>)"
proof -
  have split: "run pf (es @ es') = exec pf es' (run pf es)"
    by (simp add: run_def exec_append)
  from assms have inv: "rejected_inv (run pf es)"
    by (rule rejected_inv_reachable [OF grant_inv_run])
  from rejected_inv_exec [OF inv, of pf es']
  have inv': "rejected_inv (run pf (es @ es'))"
    and um: "userMedia (run pf (es @ es')) = userMedia (run pf es)"
    by (simp_all add: split)
  from assms have "userMedia (run pf es) \<noteq> None"
    using rejectedE by fastforce
  then have gc: "gumCount (run pf (es @ es')) = gumCount (run pf es)"
    unfolding split by (rule gumCount_exec_Some)
  from inv' obtain p r where "userMedia (run pf (es @ es')) = Some (p, Rejected r)"
    using rejectedE unfolding rejected_inv_def by blast
  from start_rejected_blocked_n [OF this, of pf n] inv' um gc show ?thesis
    by (simp add: rejected_inv_def)
qed

theorem rejected_grant_is_cached_witness:
  "rejected (run chrome refused) \<and> jobs (run chrome (refused @ [CallStop])) = [] \<and>
   state (run chrome (refused @ [CallStop])) = inactive \<and>
   gumCount (run chrome (refused @ [CallStop])) = gumCount (run chrome refused) \<and>
   exec chrome [CallStart, Microtask, Microtask] (run chrome (refused @ [CallStop])) =
     (run chrome (refused @ [CallStop]))\<lparr>effects := effects (run chrome (refused @ [CallStop])) @
        [Trigger ''blocked'' JUndefined]\<rparr>"
proof -
  have a: "rejected (run chrome refused)"
    by (simp add: run_refused rejected_def)
  have b: "jobs (run chrome (refused @ [CallStop])) = []"
    by (simp add: run_snoc run_refused stop_def setState_def trigger_def)
  from rejected_grant_is_cached [OF a, of "[CallStop]" 1] a b show ?thesis
    by simp
qed

lemma starts_pending:
  "userMedia s = Some (p, Pending) \<Longrightarrow>
   exec pf (replicate n CallStart) s = s\<lparr>reactions := reactions s + n\<rparr>"
proof (induction n arbitrary: s)
  case 0
  then show ?case by simp
next
  case (Suc n)
  let ?s1 = "s\<lparr>reactions := Suc (reactions s)\<rparr>"
  from Suc.prems have one: "step pf CallStart s = ?s1"
    by (simp add: start_def grabMic_def)
  from Suc.prems have "userMedia ?s1 = Some (p, Pending)" by simp
  from Suc.IH [OF this] one show ?case by simp
qed

lemma starts_rejected:
  "userMedia s = Some (p, Rejected r) \<Longrightarrow>
   exec pf (replicate n CallStart) s = s\<lparr>jobs := jobs s @ replicate n (StartThenSkip r)\<rparr>"
proof (induction n arbitrary: s)
  case 0
  then show ?case by simp
next
  case (Suc n)
  let ?s1 = "s\<lparr>jobs := jobs s @ [StartThenSkip r]\<rparr>"
  from Suc.prems have one: "step pf CallStart s = ?s1"
    by (simp add: start_rejected)
  from Suc.prems have "userMedia ?s1 = Some (p, Rejected r)" by simp
  from Suc.IH [OF this] one show ?case by simp
qed

lemma skips_run:
  "jobs s = replicate a (StartThenSkip r) @ replicate b (StartCatch r) \<Longrightarrow>
   exec pf (replicate a Microtask) s = s\<lparr>jobs := replicate (a + b) (StartCatch r)\<rparr>"
proof (induction a arbitrary: s b)
  case 0
  then show ?case by simp
next
  case (Suc a)
  let ?s1 = "s\<lparr>jobs := replicate a (StartThenSkip r) @ replicate (Suc b) (StartCatch r)\<rparr>"
  from Suc.prems have one: "step pf Microtask s = ?s1"
    by (simp add: replicate_append_same)
  have "jobs ?s1 = replicate a (StartThenSkip r) @ replicate (Suc b) (StartCatch r)" by simp
  from Suc.IH [OF this] one show ?case by simp
qed

lemma catches_run:
  "jobs s = replicate b (StartCatch r) \<Longrightarrow>
   exec pf (replicate b Microtask) s =
     s\<lparr>jobs := [], effects := effects s @ replicate b (Trigger ''blocked'' JUndefined)\<rparr>"
proof (induction b arbitrary: s)
  case 0
  then show ?case by simp
next
  case (Suc b)
  let ?s1 = "s\<lparr>jobs := replicate b (StartCatch r),
               effects := effects s @ [Trigger ''blocked'' JUndefined]\<rparr>"
  from Suc.prems have one: "step pf Microtask s = ?s1"
    by (simp add: trigger_def)
  have "jobs ?s1 = replicate b (StartCatch r)" by simp
  from Suc.IH [OF this] one show ?case by (simp add: replicate_append_same)
qed

lemma reactions_run:
  assumes "jobs s = replicate k (StartThenSkip r)"
  shows "exec pf (replicate (2 * k) Microtask) s =
           s\<lparr>jobs := [], effects := effects s @ replicate k (Trigger ''blocked'' JUndefined)\<rparr>"
proof -
  have "replicate (2 * k) Microtask = replicate k Microtask @ replicate k Microtask"
    by (simp add: mult_2 replicate_add)
  moreover from assms have "exec pf (replicate k Microtask) s = s\<lparr>jobs := replicate k (StartCatch r)\<rparr>"
    using skips_run [of s k r 0 pf] by simp
  moreover have "exec pf (replicate k Microtask) (s\<lparr>jobs := replicate k (StartCatch r)\<rparr>) =
      s\<lparr>jobs := [], effects := effects s @ replicate k (Trigger ''blocked'' JUndefined)\<rparr>"
    using catches_run [of "s\<lparr>jobs := replicate k (StartCatch r)\<rparr>" k r pf] by simp
  ultimately show ?thesis by (simp add: exec_append)
qed

lemma catch_rejects_all:
  assumes "userMedia s = Some (p, Pending)" "jobs s = [GumCatch e]"
  shows "exec pf (replicate (Suc (2 * reactions s)) Microtask) s =
           s\<lparr>userMedia := Some (p, Rejected (Classified (errorToCode e) e)), reactions := 0,
             jobs := [],
             effects := effects s @ replicate (reactions s) (Trigger ''blocked'' JUndefined)\<rparr>"
proof -
  let ?r = "Classified (errorToCode e) e"
  let ?s1 = "s\<lparr>userMedia := Some (p, Rejected ?r), reactions := 0,
               jobs := replicate (reactions s) (StartThenSkip ?r)\<rparr>"
  from assms have one: "step pf Microtask s = ?s1"
    by (simp add: reject_def)
  have "jobs ?s1 = replicate (reactions s) (StartThenSkip ?r)" by simp
  from reactions_run [OF this, of pf] one show ?thesis by simp
qed

lemma denied_blocks_all:
  assumes "userMedia s = Some (p, Pending)" "requested s" "jobs s = []"
  shows "exec pf (replicate n CallStart @ Settle (Denied e) #
                  replicate (2 * (reactions s + n) + 2) Microtask) s =
           s\<lparr>userMedia := Some (p, Rejected (Classified (errorToCode e) e)),
             requested := False, reactions := 0,
             effects := effects s @
               replicate (reactions s + n) (Trigger ''blocked'' JUndefined)\<rparr>"
proof -
  let ?k = "reactions s + n"
  let ?s1 = "s\<lparr>reactions := ?k\<rparr>"
  let ?s2 = "s\<lparr>requested := False, reactions := ?k, jobs := [GumCatch e]\<rparr>"
  have n2: "replicate (2 * ?k + 2) Microtask = Microtask # replicate (Suc (2 * ?k)) Microtask"
    by simp
  have a: "exec pf (replicate n CallStart) s = ?s1"
    using assms(1) by (rule starts_pending)
  from assms have b: "exec pf [Settle (Denied e), Microtask] ?s1 = ?s2"
    by simp
  from assms have "userMedia ?s2 = Some (p, Pending)" "jobs ?s2 = [GumCatch e]"
    by simp_all
  from catch_rejects_all [OF this, of pf] have c:
    "exec pf (replicate (Suc (2 * ?k)) Microtask) ?s2 =
       s\<lparr>userMedia := Some (p, Rejected (Classified (errorToCode e) e)),
         requested := False, reactions := 0,
         effects := effects s @ replicate ?k (Trigger ''blocked'' JUndefined)\<rparr>"
    using assms by simp
  have "exec pf (replicate n CallStart @ Settle (Denied e) # replicate (2 * ?k + 2) Microtask) s =
      exec pf (replicate (Suc (2 * ?k)) Microtask)
        (exec pf [Settle (Denied e), Microtask] (exec pf (replicate n CallStart) s))"
    by (simp only: n2 exec_append exec.simps)
  with a b c show ?thesis by (simp only:)
qed

lemma handler_throw_blocks_all:
  assumes "userMedia s = Some (p, Pending)" "requested s" "jobs s = []" "\<not> audioContext s"
  shows "exec pf (replicate n CallStart @ Settle Granted #
                  replicate (2 * (reactions s + n) + 2) Microtask) s =
           s\<lparr>userMedia := Some (p, Rejected (Classified (errorToCode TypeError) TypeError)),
             requested := False, reactions := 0,
             effects := effects s @
               replicate (reactions s + n) (Trigger ''blocked'' JUndefined)\<rparr>"
proof -
  let ?k = "reactions s + n"
  let ?s1 = "s\<lparr>reactions := ?k\<rparr>"
  let ?s2 = "s\<lparr>requested := False, reactions := ?k, jobs := [GumCatch TypeError]\<rparr>"
  have n2: "replicate (2 * ?k + 2) Microtask = Microtask # replicate (Suc (2 * ?k)) Microtask"
    by simp
  have a: "exec pf (replicate n CallStart) s = ?s1"
    using assms(1) by (rule starts_pending)
  from assms have b: "exec pf [Settle Granted, Microtask] ?s1 = ?s2"
    by simp
  from assms have "userMedia ?s2 = Some (p, Pending)" "jobs ?s2 = [GumCatch TypeError]"
    by simp_all
  from catch_rejects_all [OF this, of pf] have c:
    "exec pf (replicate (Suc (2 * ?k)) Microtask) ?s2 =
       s\<lparr>userMedia := Some (p, Rejected (Classified (errorToCode TypeError) TypeError)),
         requested := False, reactions := 0,
         effects := effects s @ replicate ?k (Trigger ''blocked'' JUndefined)\<rparr>"
    using assms by simp
  have "exec pf (replicate n CallStart @ Settle Granted # replicate (2 * ?k + 2) Microtask) s =
      exec pf (replicate (Suc (2 * ?k)) Microtask)
        (exec pf [Settle Granted, Microtask] (exec pf (replicate n CallStart) s))"
    by (simp only: n2 exec_append exec.simps)
  with a b c show ?thesis by (simp only:)
qed

lemma first_start_denied:
  assumes "userMedia s = None" "mediaDevices pf = Some True" "jobs s = []" "reactions s = 0"
  shows "exec pf (replicate (Suc n) CallStart @ Settle (Denied e) #
                  replicate (2 * Suc n + 2) Microtask) s =
           s\<lparr>userMedia := Some (promiseCount s, Rejected (Classified (errorToCode e) e)),
             requested := False, promiseCount := Suc (promiseCount s),
             effects := effects s @ GetUserMedia #
               replicate (Suc n) (Trigger ''blocked'' JUndefined)\<rparr>"
proof -
  let ?s1 = "s\<lparr>userMedia := Some (promiseCount s, Pending), requested := True,
               reactions := Suc 0, promiseCount := Suc (promiseCount s),
               effects := effects s @ [GetUserMedia]\<rparr>"
  from assms have one: "step pf CallStart s = ?s1"
    by (simp add: start_def grabMic_def executor_def Let_def)
  have "userMedia ?s1 = Some (promiseCount s, Pending)" "requested ?s1" "jobs ?s1 = []"
    using assms by simp_all
  from denied_blocks_all [OF this, of pf n e] one assms show ?thesis
    by simp
qed

lemma executor_throw_blocks_all:
  assumes "userMedia s = None" "executor pf s = Inl e" "jobs s = []"
  shows "exec pf (replicate (Suc n) CallStart @ replicate (2 * Suc n) Microtask) s =
           s\<lparr>userMedia := Some (promiseCount s, Rejected (Thrown e)),
             promiseCount := Suc (promiseCount s),
             effects := effects s @ replicate (Suc n) (Trigger ''blocked'' JUndefined)\<rparr>"
proof -
  let ?s1 = "s\<lparr>userMedia := Some (promiseCount s, Rejected (Thrown e)),
               promiseCount := Suc (promiseCount s), jobs := [StartThenSkip (Thrown e)]\<rparr>"
  let ?s2 = "s\<lparr>userMedia := Some (promiseCount s, Rejected (Thrown e)),
               promiseCount := Suc (promiseCount s),
               jobs := replicate (Suc n) (StartThenSkip (Thrown e))\<rparr>"
  from assms have one: "step pf CallStart s = ?s1"
    by (simp add: start_def grabMic_def Let_def)
  have "userMedia ?s1 = Some (promiseCount s, Rejected (Thrown e))" by simp
  from starts_rejected [OF this, of pf n] have two: "exec pf (replicate n CallStart) ?s1 = ?s2"
    by simp
  have "jobs ?s2 = replicate (Suc n) (StartThenSkip (Thrown e))" by simp
  from reactions_run [OF this, of pf] have three:
    "exec pf (replicate (2 * Suc n) Microtask) ?s2 =
       s\<lparr>userMedia := Some (promiseCount s, Rejected (Thrown e)),
         promiseCount := Suc (promiseCount s),
         effects := effects s @ replicate (Suc n) (Trigger ''blocked'' JUndefined)\<rparr>"
    using assms by simp
  have "exec pf (replicate (Suc n) CallStart @ replicate (2 * Suc n) Microtask) s =
      exec pf (replicate (2 * Suc n) Microtask) (exec pf (replicate n CallStart) (step pf CallStart s))"
    by (simp only: exec_append replicate_Suc exec.simps)
  with one two three show ?thesis by (simp only:)
qed

lemma rejected_blocks_all:
  assumes "userMedia s = Some (p, Rejected r)" "jobs s = []"
  shows "exec pf (replicate n CallStart @ replicate (2 * n) Microtask) s =
           s\<lparr>effects := effects s @ replicate n (Trigger ''blocked'' JUndefined)\<rparr>"
proof -
  let ?s1 = "s\<lparr>jobs := replicate n (StartThenSkip r)\<rparr>"
  from starts_rejected [OF assms(1), of pf n] assms(2)
  have a: "exec pf (replicate n CallStart) s = ?s1" by simp
  have "jobs ?s1 = replicate n (StartThenSkip r)" by simp
  from reactions_run [OF this, of pf] assms(2) have
    "exec pf (replicate (2 * n) Microtask) ?s1 =
       s\<lparr>effects := effects s @ replicate n (Trigger ''blocked'' JUndefined)\<rparr>"
    by simp
  with a show ?thesis by (simp only: exec_append)
qed

lemma waiting_chrome:
  "waiting chrome = \<lparr>state = inactive, audioContext = True, userMedia = Some (0, Pending),
     requested = True, reactions = 1, jobs = [], onceListeners = [], promiseCount = 1,
     effects = [GetUserMedia]\<rparr>"
  by (simp add: waiting_def run_def new_Recorder_def init_def supported_def chrome_def
      start_def grabMic_def executor_def Let_def)

lemma waiting_no_AudioContext:
  "waiting no_AudioContext = \<lparr>state = inactive, audioContext = False,
     userMedia = Some (0, Pending), requested = True, reactions = 1, jobs = [],
     onceListeners = [], promiseCount = 1, effects = [GetUserMedia]\<rparr>"
  by (simp add: waiting_def run_def new_Recorder_def init_def supported_def no_AudioContext_def
      start_def grabMic_def executor_def Let_def)

text \<open>
  C5, as the code has it: when the grant fails, every \<open>start()\<close> that asked for it ends in
  one \<open>blocked\<close> signal whose data is \<open>undefined\<close>, and the state and every field other than
  the grant's settlement stay as they were. This holds for \<open>n\<close> calls made when the grant
  is already rejected; for the calls waiting on a pending grant, and \<open>n\<close> more made before
  the answer, when the user refuses; for the first \<open>n + 1\<close> calls on a recorder that has
  no grant yet, when the user refuses; when the promise executor throws because the
  platform has no \<open>getUserMedia\<close>; and when the success handler throws because there is no
  audio context. What the source throws on this path becomes the rejection of the grant:
  no error and no rejected promise reaches the caller of \<open>start()\<close>.
\<close>

theorem start_failure_blocked_without_code:
  "(userMedia s = Some (p, Rejected r) \<and> jobs s = [] \<longrightarrow>
      exec pf (replicate n CallStart @ replicate (2 * n) Microtask) s =
        s\<lparr>effects := effects s @ replicate n (Trigger ''blocked'' JUndefined)\<rparr>) \<and>
   (userMedia sa = Some (pa, Pending) \<and> requested sa \<and> jobs sa = [] \<longrightarrow>
      exec pf (replicate n CallStart @ Settle (Denied e) #
               replicate (2 * (reactions sa + n) + 2) Microtask) sa =
        sa\<lparr>userMedia := Some (pa, Rejected (Classified (errorToCode e) e)),
           requested := False, reactions := 0,
           effects := effects sa @
             replicate (reactions sa + n) (Trigger ''blocked'' JUndefined)\<rparr>) \<and>
   (userMedia sb = None \<and> mediaDevices pfb = Some True \<and> jobs sb = [] \<and> reactions sb = 0 \<longrightarrow>
      exec pfb (replicate (Suc n) CallStart @ Settle (Denied e) #
                replicate (2 * Suc n + 2) Microtask) sb =
        sb\<lparr>userMedia := Some (promiseCount sb, Rejected (Classified (errorToCode e) e)),
           requested := False, promiseCount := Suc (promiseCount sb),
           effects := effects sb @ GetUserMedia #
             replicate (Suc n) (Trigger ''blocked'' JUndefined)\<rparr>) \<and>
   (userMedia sc = None \<and> executor pfc sc = Inl ec \<and> jobs sc = [] \<longrightarrow>
      exec pfc (replicate (Suc n) CallStart @ replicate (2 * Suc n) Microtask) sc =
        sc\<lparr>userMedia := Some (promiseCount sc, Rejected (Thrown ec)),
           promiseCount := Suc (promiseCount sc),
           effects := effects sc @ replicate (Suc n) (Trigger ''blocked'' JUndefined)\<rparr>) \<and>
   (userMedia sd = Some (pd, Pending) \<and> requested sd \<and> jobs sd = [] \<and> \<not> audioContext sd \<longrightarrow>
      exec pf (replicate n CallStart @ Settle Granted #
               replicate (2 * (reactions sd + n) + 2) Microtask) sd =
        sd\<lparr>userMedia := Some (pd, Rejected (Classified (errorToCode TypeError) TypeError)),
           requested := False, reactions := 0,
           effects := effects sd @
             replicate (reactions sd + n) (Trigger ''blocked'' JUndefined)\<rparr>)"
  using rejected_blocks_all [of s p r pf n] denied_blocks_all [of sa pa pf n e]
    first_start_denied [of sb pfb n e] executor_throw_blocks_all [of sc pfc ec n]
    handler_throw_blocks_all [of sd pd pf n]
  by blast

theorem start_failure_blocked_without_code_witness:
  "(userMedia (run chrome refused) =
      Some (0, Rejected (Classified (JString ''permission-denied'') NotAllowedError)) \<and>
    jobs (run chrome refused) = []) \<and>
   effects (exec chrome [CallStart, Microtask, Microtask]
      (run chrome refused)) =
     [GetUserMedia, Trigger ''blocked'' JUndefined, Trigger ''blocked'' JUndefined] \<and>
   (userMedia (waiting chrome) = Some (0, Pending) \<and> requested (waiting chrome) \<and>
    jobs (waiting chrome) = []) \<and>
   effects (exec chrome [CallStart, Settle (Denied NotAllowedError),
        Microtask, Microtask, Microtask, Microtask, Microtask, Microtask]
      (waiting chrome)) =
     [GetUserMedia, Trigger ''blocked'' JUndefined, Trigger ''blocked'' JUndefined] \<and>
   (userMedia (new_Recorder chrome) = None \<and> mediaDevices chrome = Some True \<and>
    jobs (new_Recorder chrome) = [] \<and> reactions (new_Recorder chrome) = 0) \<and>
   effects (exec chrome [CallStart, CallStart, Settle (Denied NotAllowedError),
        Microtask, Microtask, Microtask, Microtask, Microtask, Microtask]
      (new_Recorder chrome)) =
     [GetUserMedia, Trigger ''blocked'' JUndefined, Trigger ''blocked'' JUndefined] \<and>
   (userMedia (new_Recorder no_mediaDevices) = None \<and>
    executor no_mediaDevices (new_Recorder no_mediaDevices) = Inl TypeError \<and>
    jobs (new_Recorder no_mediaDevices) = []) \<and>
   effects (exec no_mediaDevices [CallStart, CallStart, Microtask, Microtask, Microtask, Microtask]
      (new_Recorder no_mediaDevices)) =
     [Trigger ''blocked'' JUndefined, Trigger ''blocked'' JUndefined] \<and>
   (userMedia (waiting no_AudioContext) = Some (0, Pending) \<and>
    requested (waiting no_AudioContext) \<and> jobs (waiting no_AudioContext) = [] \<and>
    \<not> audioContext (waiting no_AudioContext)) \<and>
   effects (exec chrome [CallStart, Settle Granted,
        Microtask, Microtask, Microtask, Microtask, Microtask, Microtask]
      (waiting no_AudioContext)) =
     [GetUserMedia, Trigger ''blocked'' JUndefined, Trigger ''blocked'' JUndefined]"
proof -
  note th = start_failure_blocked_without_code
    [where s = "run chrome refused" and p = 0
       and r = "Classified (JString ''permission-denied'') NotAllowedError"
       and pf = chrome and n = 1 and sa = "waiting chrome" and pa = 0 and e = NotAllowedError
       and sb = "new_Recorder chrome" and pfb = chrome
       and sc = "new_Recorder no_mediaDevices" and pfc = no_mediaDevices and ec = TypeError
       and sd = "waiting no_AudioContext" and pd = 0]
  have h0: "userMedia (run chrome refused) =
      Some (0, Rejected (Classified (JString ''permission-denied'') NotAllowedError)) \<and>
    jobs (run chrome refused) = []"
    by (simp add: run_refused)
  from th h0 have e0:
    "exec chrome (replicate 1 CallStart @ replicate (2 * 1) Microtask)
       (run chrome refused) =
      (run chrome refused)\<lparr>effects := effects (run chrome refused) @
        replicate 1 (Trigger ''blocked'' JUndefined)\<rparr>"
    by blast
  have l0: "[CallStart, Microtask, Microtask] =
      replicate 1 CallStart @ replicate (2 * 1) Microtask"
    by (simp add: numeral_eq_Suc)
  have r0: "effects ((run chrome refused)\<lparr>effects := effects (run chrome refused) @
        replicate 1 (Trigger ''blocked'' JUndefined)\<rparr>) =
      [GetUserMedia, Trigger ''blocked'' JUndefined, Trigger ''blocked'' JUndefined]"
    by (simp add: run_refused)
  have c0: "effects (exec chrome [CallStart, Microtask, Microtask]
      (run chrome refused)) =
     [GetUserMedia, Trigger ''blocked'' JUndefined, Trigger ''blocked'' JUndefined]"
    by (simp only: l0 e0 r0)
  have h1: "userMedia (waiting chrome) = Some (0, Pending) \<and> requested (waiting chrome) \<and>
    jobs (waiting chrome) = []"
    by (simp add: waiting_chrome)
  from th h1 have e1:
    "exec chrome (replicate 1 CallStart @ Settle (Denied NotAllowedError) #
        replicate (2 * (reactions (waiting chrome) + 1) + 2) Microtask)
       (waiting chrome) =
      (waiting chrome)\<lparr>userMedia := Some (0, Rejected (Classified (errorToCode NotAllowedError)
          NotAllowedError)), requested := False, reactions := 0,
        effects := effects (waiting chrome) @
          replicate (reactions (waiting chrome) + 1) (Trigger ''blocked'' JUndefined)\<rparr>"
    by blast
  have l1: "[CallStart, Settle (Denied NotAllowedError),
        Microtask, Microtask, Microtask, Microtask, Microtask, Microtask] =
      replicate 1 CallStart @ Settle (Denied NotAllowedError) #
        replicate (2 * (reactions (waiting chrome) + 1) + 2) Microtask"
    by (simp add: waiting_chrome numeral_eq_Suc)
  have r1: "effects ((waiting chrome)\<lparr>userMedia := Some (0, Rejected (Classified (errorToCode NotAllowedError)
          NotAllowedError)), requested := False, reactions := 0,
        effects := effects (waiting chrome) @
          replicate (reactions (waiting chrome) + 1) (Trigger ''blocked'' JUndefined)\<rparr>) =
      [GetUserMedia, Trigger ''blocked'' JUndefined, Trigger ''blocked'' JUndefined]"
    by (simp add: waiting_chrome numeral_eq_Suc)
  have c1: "effects (exec chrome [CallStart, Settle (Denied NotAllowedError),
        Microtask, Microtask, Microtask, Microtask, Microtask, Microtask]
      (waiting chrome)) =
     [GetUserMedia, Trigger ''blocked'' JUndefined, Trigger ''blocked'' JUndefined]"
    by (simp only: l1 e1 r1)
  have h2: "userMedia (new_Recorder chrome) = None \<and> mediaDevices chrome = Some True \<and>
    jobs (new_Recorder chrome) = [] \<and> reactions (new_Recorder chrome) = 0"
    by (simp add: new_Recorder_def init_def chrome_def)
  from th h2 have e2:
    "exec chrome (replicate (Suc 1) CallStart @ Settle (Denied NotAllowedError) #
        replicate (2 * Suc 1 + 2) Microtask)
       (new_Recorder chrome) =
      (new_Recorder chrome)\<lparr>userMedia := Some (promiseCount (new_Recorder chrome),
          Rejected (Classified (errorToCode NotAllowedError) NotAllowedError)),
        requested := False, promiseCount := Suc (promiseCount (new_Recorder chrome)),
        effects := effects (new_Recorder chrome) @ GetUserMedia #
          replicate (Suc 1) (Trigger ''blocked'' JUndefined)\<rparr>"
    by blast
  have l2: "[CallStart, CallStart, Settle (Denied NotAllowedError),
        Microtask, Microtask, Microtask, Microtask, Microtask, Microtask] =
      replicate (Suc 1) CallStart @ Settle (Denied NotAllowedError) #
        replicate (2 * Suc 1 + 2) Microtask"
    by (simp add: numeral_eq_Suc)
  have r2: "effects ((new_Recorder chrome)\<lparr>userMedia := Some (promiseCount (new_Recorder chrome),
          Rejected (Classified (errorToCode NotAllowedError) NotAllowedError)),
        requested := False, promiseCount := Suc (promiseCount (new_Recorder chrome)),
        effects := effects (new_Recorder chrome) @ GetUserMedia #
          replicate (Suc 1) (Trigger ''blocked'' JUndefined)\<rparr>) =
      [GetUserMedia, Trigger ''blocked'' JUndefined, Trigger ''blocked'' JUndefined]"
    by (simp add: new_Recorder_def init_def numeral_eq_Suc)
  have c2: "effects (exec chrome [CallStart, CallStart, Settle (Denied NotAllowedError),
        Microtask, Microtask, Microtask, Microtask, Microtask, Microtask]
      (new_Recorder chrome)) =
     [GetUserMedia, Trigger ''blocked'' JUndefined, Trigger ''blocked'' JUndefined]"
    by (simp only: l2 e2 r2)
  have h3: "userMedia (new_Recorder no_mediaDevices) = None \<and>
    executor no_mediaDevices (new_Recorder no_mediaDevices) = Inl TypeError \<and>
    jobs (new_Recorder no_mediaDevices) = []"
    by (simp add: new_Recorder_def init_def no_mediaDevices_def executor_def)
  from th h3 have e3:
    "exec no_mediaDevices (replicate (Suc 1) CallStart @ replicate (2 * Suc 1) Microtask)
       (new_Recorder no_mediaDevices) =
      (new_Recorder no_mediaDevices)\<lparr>userMedia :=
          Some (promiseCount (new_Recorder no_mediaDevices), Rejected (Thrown TypeError)),
        promiseCount := Suc (promiseCount (new_Recorder no_mediaDevices)),
        effects := effects (new_Recorder no_mediaDevices) @
          replicate (Suc 1) (Trigger ''blocked'' JUndefined)\<rparr>"
    by blast
  have l3: "[CallStart, CallStart, Microtask, Microtask, Microtask, Microtask] =
      replicate (Suc 1) CallStart @ replicate (2 * Suc 1) Microtask"
    by (simp add: numeral_eq_Suc)
  have r3: "effects ((new_Recorder no_mediaDevices)\<lparr>userMedia :=
          Some (promiseCount (new_Recorder no_mediaDevices), Rejected (Thrown TypeError)),
        promiseCount := Suc (promiseCount (new_Recorder no_mediaDevices)),
        effects := effects (new_Recorder no_mediaDevices) @
          replicate (Suc 1) (Trigger ''blocked'' JUndefined)\<rparr>) =
      [Trigger ''blocked'' JUndefined, Trigger ''blocked'' JUndefined]"
    by (simp add: new_Recorder_def init_def numeral_eq_Suc)
  have c3: "effects (exec no_mediaDevices [CallStart, CallStart, Microtask, Microtask, Microtask, Microtask]
      (new_Recorder no_mediaDevices)) =
     [Trigger ''blocked'' JUndefined, Trigger ''blocked'' JUndefined]"
    by (simp only: l3 e3 r3)
  have h4: "userMedia (waiting no_AudioContext) = Some (0, Pending) \<and>
    requested (waiting no_AudioContext) \<and> jobs (waiting no_AudioContext) = [] \<and>
    \<not> audioContext (waiting no_AudioContext)"
    by (simp add: waiting_no_AudioContext)
  from th h4 have e4:
    "exec chrome (replicate 1 CallStart @ Settle Granted #
        replicate (2 * (reactions (waiting no_AudioContext) + 1) + 2) Microtask)
       (waiting no_AudioContext) =
      (waiting no_AudioContext)\<lparr>userMedia :=
          Some (0, Rejected (Classified (errorToCode TypeError) TypeError)),
        requested := False, reactions := 0,
        effects := effects (waiting no_AudioContext) @
          replicate (reactions (waiting no_AudioContext) + 1) (Trigger ''blocked'' JUndefined)\<rparr>"
    by blast
  have l4: "[CallStart, Settle Granted,
        Microtask, Microtask, Microtask, Microtask, Microtask, Microtask] =
      replicate 1 CallStart @ Settle Granted #
        replicate (2 * (reactions (waiting no_AudioContext) + 1) + 2) Microtask"
    by (simp add: waiting_no_AudioContext numeral_eq_Suc)
  have r4: "effects ((waiting no_AudioContext)\<lparr>userMedia :=
          Some (0, Rejected (Classified (errorToCode TypeError) TypeError)),
        requested := False, reactions := 0,
        effects := effects (waiting no_AudioContext) @
          replicate (reactions (waiting no_AudioContext) + 1) (Trigger ''blocked'' JUndefined)\<rparr>) =
      [GetUserMedia, Trigger ''blocked'' JUndefined, Trigger ''blocked'' JUndefined]"
    by (simp add: waiting_no_AudioContext numeral_eq_Suc)
  have c4: "effects (exec chrome [CallStart, Settle Granted,
        Microtask, Microtask, Microtask, Microtask, Microtask, Microtask]
      (waiting no_AudioContext)) =
     [GetUserMedia, Trigger ''blocked'' JUndefined, Trigger ''blocked'' JUndefined]"
    by (simp only: l4 e4 r4)
  from h0 h1 h2 h3 h4 c0 c1 c2 c3 c4 show ?thesis
    by blast
qed

text \<open>
  The signal does not carry the code: after a refused prompt the classifier's code is
  \<open>permission-denied\<close>, and the only \<open>blocked\<close> signal has the data \<open>undefined\<close>.
\<close>

theorem blocked_carries_no_code:
  "errorToCode NotAllowedError = JString ''permission-denied'' \<and>
   effects (run chrome refused) = [GetUserMedia, Trigger ''blocked'' JUndefined] \<and>
   Trigger ''blocked'' (errorToCode NotAllowedError) \<notin> set (effects (run chrome refused))"
  by (simp add: run_refused errorToCode_def getProperty_def errorMessageToCodeMap_def
      NotAllowedError_def)

section \<open>Exporting\<close>








lemma wavListener_blob:
  "concat (map (wavListener (JBlob b)) ps) = map (\<lambda>q. Resolve q (JObjectURL b)) ps"
  by (induction ps) simp_all

lemma wav_delivered_resolves:
  "step pf (WorkerReply ''wav-delivered'' (JBlob b)) s =
     s\<lparr>onceListeners := [],
       effects := effects s @ Trigger ''wav-delivered'' (JBlob b) #
                  map (\<lambda>q. Resolve q (JObjectURL b)) (onceListeners s)\<rparr>"
  by (simp add: onmessage_def trigger_def wavListener_blob)




end
